theory Spec2Isabelle
  imports Complex_Main
begin

chapter \<open>Recording calibration: the programs\<close>

section \<open>Normalized lag estimator\<close>

text \<open>
  JavaScript numbers are IEEE doubles and the working copies are \<open>Float32Array\<close>s.
  The definitions of this section compute with \<^typ>\<open>real\<close> numbers in exact arithmetic;
  the section on rounded arithmetic repeats the estimator with the rounded operations as
  a parameter. The one non-finite value the estimator produces itself, \<open>-Infinity\<close>, is
  kept as a value of its own.
\<close>

datatype score = NegInf | Fin real

text \<open>The comparison \<open>s > bestScore\<close> of the scan.\<close>

fun score_gt :: "score \<Rightarrow> score \<Rightarrow> bool" where
  "score_gt NegInf _ = False"
| "score_gt (Fin a) NegInf = True"
| "score_gt (Fin a) (Fin b) = (b < a)"

record lag_estimate =
  lagSamples :: int
  lagMs :: real
  score :: score

text \<open>The options object; a missing field takes the default of the destructuring.\<close>

record opts =
  opt_maxLagMs :: "real option"
  opt_allowNegative :: "bool option"

definition no_opts :: opts where
  "no_opts = \<lparr>opt_maxLagMs = None, opt_allowNegative = None\<rparr>"

text \<open>\<open>const { maxLagMs = 120, allowNegative = false } = opts\<close>.\<close>

definition maxLagMsOf :: "opts \<Rightarrow> real" where
  "maxLagMsOf os = (case opt_maxLagMs os of None \<Rightarrow> 120 | Some v \<Rightarrow> v)"

definition allowNegativeOf :: "opts \<Rightarrow> bool" where
  "allowNegativeOf os = (case opt_allowNegative os of None \<Rightarrow> False | Some b \<Rightarrow> b)"

text \<open>\<open>toF32\<close>: a fresh copy of the argument (the pure model keeps the values).\<close>

definition toF32 :: "real list \<Rightarrow> real list" where
  "toF32 a = a"

text \<open>\<open>zeroMean\<close>: the running sum \<open>m\<close>, then \<open>a[i] -= m\<close> for every index.\<close>

definition zeroMean :: "real list \<Rightarrow> real list" where
  "zeroMean a = (let m = foldl (\<lambda>m v. m + v) 0 a / real (length a) in map (\<lambda>v. v - m) a)"

text \<open>The accumulation loop of \<open>evalLag\<close> over \<open>i = yStart, ..., yEnd - 1\<close>.\<close>

definition corrStep :: "real list \<Rightarrow> real list \<Rightarrow> int \<Rightarrow> real \<times> real \<times> real \<Rightarrow> int \<Rightarrow> real \<times> real \<times> real" where
  "corrStep x y lag acc i =
     (case acc of (dot, xx, yy) \<Rightarrow>
        (let a = y ! nat i; b = x ! nat (i + lag)
         in (dot + a * b, xx + b * b, yy + a * a)))"

definition corrSums :: "real list \<Rightarrow> real list \<Rightarrow> int \<Rightarrow> int \<Rightarrow> int \<Rightarrow> real \<times> real \<times> real" where
  "corrSums x y lag yStart yEnd = foldl (corrStep x y lag) (0, 0, 0) [yStart..yEnd - 1]"

text \<open>
  \<open>evalLag\<close>; \<open>minOverlap\<close> is the constant of the overlap test, 16 in the calibration
  module and 8 in recorder-utils.
\<close>

definition evalLag :: "int \<Rightarrow> real list \<Rightarrow> real list \<Rightarrow> int \<Rightarrow> score" where
  "evalLag minOverlap x y lag =
     (let yStart = max 0 (- lag);
          yEnd = min (int (length y)) (int (length x) - lag)
      in if yEnd - yStart < minOverlap then NegInf
         else (case corrSums x y lag yStart yEnd of (dot, xx, yy) \<Rightarrow>
                 if xx \<le> 1 / 10 ^ 12 \<or> yy \<le> 1 / 10 ^ 12 then NegInf
                 else Fin (dot / sqrt (xx * yy))))"

text \<open>One iteration of either scan loop: \<open>if (s > bestScore) { bestScore = s; bestLag = lag; }\<close>.\<close>

definition scanStep :: "(int \<Rightarrow> score) \<Rightarrow> int \<times> score \<Rightarrow> int \<Rightarrow> int \<times> score" where
  "scanStep ev best lag =
     (case best of (bestLag, bestScore) \<Rightarrow>
        (let s = ev lag in if score_gt s bestScore then (lag, s) else (bestLag, bestScore)))"

definition scanLags :: "(int \<Rightarrow> score) \<Rightarrow> int list \<Rightarrow> int \<times> score" where
  "scanLags ev lags = foldl (scanStep ev) (0, NegInf) lags"

text \<open>The bound \<open>maxLag\<close> of the search.\<close>

definition maxLagOf :: "real \<Rightarrow> real \<Rightarrow> real list \<Rightarrow> real list \<Rightarrow> int" where
  "maxLagOf maxLagMs sampleRate x y =
     min \<lfloor>(maxLagMs / 1000) * sampleRate\<rfloor> \<lfloor>real (max (length x) (length y)) / 2\<rfloor>"

text \<open>The lags the two \<open>for\<close> loops visit, in order.\<close>

definition lagRange :: "bool \<Rightarrow> int \<Rightarrow> int list" where
  "lagRange allowNegative maxLag = (if allowNegative then [- maxLag..maxLag] else [0..maxLag])"

definition earlyOut :: lag_estimate where
  "earlyOut = \<lparr>lagSamples = 0, lagMs = 0, score = Fin 0\<rparr>"

text \<open>
  The search after the early-out, on the centred copies. With \<open>sampleRate = 0\<close> the
  source's \<open>lagMs\<close> is \<open>NaN\<close> or infinite, where the division of HOL gives 0; the statements
  below either take a positive sample rate or equate two results that compute \<open>lagMs\<close> by
  this one expression from equal lags.
\<close>

definition lagSearch :: "int \<Rightarrow> real list \<Rightarrow> real list \<Rightarrow> real \<Rightarrow> real \<Rightarrow> bool \<Rightarrow> lag_estimate" where
  "lagSearch minOverlap x y sampleRate maxLagMs allowNegative =
     (let maxLag = maxLagOf maxLagMs sampleRate x y
      in case scanLags (evalLag minOverlap x y) (lagRange allowNegative maxLag) of
           (bestLag, bestScore) \<Rightarrow>
             \<lparr>lagSamples = bestLag, lagMs = (real_of_int bestLag / sampleRate) * 1000,
              score = bestScore\<rparr>)"

definition estimateLagGen :: "int \<Rightarrow> real list \<Rightarrow> real list \<Rightarrow> real \<Rightarrow> opts \<Rightarrow> lag_estimate" where
  "estimateLagGen minOverlap mic ref sampleRate os =
     (let maxLagMs = maxLagMsOf os;
          allowNegative = allowNegativeOf os;
          x = zeroMean (toF32 mic);
          y = zeroMean (toF32 ref)
      in if length x < 8 \<or> length y < 8 then earlyOut
         else lagSearch minOverlap x y sampleRate maxLagMs allowNegative)"

text \<open>\<open>estimateLagNormalized\<close> of the calibration module (overlap constant 16).\<close>

definition estimateLagNormalized :: "real list \<Rightarrow> real list \<Rightarrow> real \<Rightarrow> opts \<Rightarrow> lag_estimate" where
  "estimateLagNormalized = estimateLagGen 16"

text \<open>\<open>estimateLagNormalized\<close> of recorder-utils (overlap constant 8).\<close>

definition estimateLagNormalized_utils :: "real list \<Rightarrow> real list \<Rightarrow> real \<Rightarrow> opts \<Rightarrow> lag_estimate" where
  "estimateLagNormalized_utils = estimateLagGen 8"

text \<open>Energy of a sequence, the quantity the estimator compares with \<open>1e-12\<close>.\<close>

definition energy :: "real list \<Rightarrow> real" where
  "energy x = sum_list (map (\<lambda>v. v * v) x)"


text \<open>What the scan has established after visiting \<open>lags\<close> (an increasing list).\<close>

definition scanInv :: "(int \<Rightarrow> score) \<Rightarrow> int list \<Rightarrow> int \<times> score \<Rightarrow> bool" where
  "scanInv ev lags best =
     (case best of (bl, bs) \<Rightarrow>
        (bs = NegInf \<and> bl = 0 \<and> (\<forall>l\<in>set lags. ev l = NegInf)) \<or>
        (bs \<noteq> NegInf \<and> bl \<in> set lags \<and> ev bl = bs \<and>
         (\<forall>l\<in>set lags. \<not> score_gt (ev l) bs) \<and>
         (\<forall>l\<in>set lags. ev l = bs \<longrightarrow> bl \<le> l)))"

section \<open>The estimator on a store of arrays\<close>

text \<open>
  The arguments of \<open>estimateLagNormalized\<close> are references to arrays that the caller
  keeps. The store is the list of all arrays allocated so far, an address is an index
  into it, and allocation appends.
\<close>

datatype jsarray = Float32Array "real list" | NumberArray "real list"

fun elems :: "jsarray \<Rightarrow> real list" where
  "elems (Float32Array xs) = xs"
| "elems (NumberArray xs) = xs"

type_synonym store = "jsarray list"

text \<open>
  \<open>toF32\<close>: \<open>a.slice()\<close> for a \<open>Float32Array\<close>, \<open>Float32Array.from(a)\<close> otherwise; both
  allocate a new \<open>Float32Array\<close> with the elements of \<open>a\<close>.
\<close>

definition toF32_st :: "store \<Rightarrow> nat \<Rightarrow> nat \<times> store" where
  "toF32_st h a =
     (case h ! a of
        Float32Array xs \<Rightarrow> (length h, h @ [Float32Array xs])
      | NumberArray xs \<Rightarrow> (length h, h @ [Float32Array xs]))"

text \<open>The assignment \<open>a[i] = v\<close> through the reference \<open>a\<close>.\<close>

definition writeElem :: "store \<Rightarrow> nat \<Rightarrow> nat \<Rightarrow> real \<Rightarrow> store" where
  "writeElem h a i v =
     h[a := (case h ! a of
               Float32Array xs \<Rightarrow> Float32Array (xs[i := v])
             | NumberArray xs \<Rightarrow> NumberArray (xs[i := v]))]"

text \<open>\<open>zeroMean\<close> in place: both loops run over the indices of the array at \<open>a\<close>.\<close>

definition zeroMean_st :: "store \<Rightarrow> nat \<Rightarrow> store" where
  "zeroMean_st h a =
     (let n = length (elems (h ! a));
          m = foldl (\<lambda>m i. m + elems (h ! a) ! i) 0 [0..<n] / real n
      in foldl (\<lambda>h' i. writeElem h' a i (elems (h' ! a) ! i - m)) h [0..<n])"

definition estimateLagNormalized_st :: "store \<Rightarrow> nat \<Rightarrow> nat \<Rightarrow> real \<Rightarrow> opts \<Rightarrow> lag_estimate \<times> store" where
  "estimateLagNormalized_st h mic ref sampleRate os =
     (let maxLagMs = maxLagMsOf os;
          allowNegative = allowNegativeOf os
      in case toF32_st h mic of (x, h1) \<Rightarrow>
         (case toF32_st h1 ref of (y, h2) \<Rightarrow>
            (let h3 = zeroMean_st h2 x;
                 h4 = zeroMean_st h3 y;
                 xs = elems (h4 ! x);
                 ys = elems (h4 ! y)
             in if length xs < 8 \<or> length ys < 8 then (earlyOut, h4)
                else (lagSearch 16 xs ys sampleRate maxLagMs allowNegative, h4))))"

section \<open>Robust aggregation\<close>

text \<open>The result of one trial: the estimate spread into an object with the diagnostics.\<close>

record trial_result = lag_estimate +
  micRms :: real
  micClipped :: bool

text \<open>\<open>res.score >= minScore\<close>.\<close>

fun score_ge :: "score \<Rightarrow> real \<Rightarrow> bool" where
  "score_ge NegInf _ = False"
| "score_ge (Fin a) b = (b \<le> a)"

text \<open>The amplitude for the next attempt.\<close>

definition nextAmp :: "bool \<Rightarrow> trial_result \<Rightarrow> real \<Rightarrow> real" where
  "nextAmp adaptAmp res currentAmp =
     (if adaptAmp then
        (if micClipped res then max (2 / 10) (currentAmp * (6 / 10))
         else if micRms res < 3 / 100 then min (95 / 100) (currentAmp * (14 / 10))
         else currentAmp)
      else currentAmp)"

text \<open>
  The loop over the attempts. \<open>trial i amp\<close> stands for the awaited call of
  \<open>calibrateLatency\<close> in attempt \<open>i\<close> with chirp amplitude \<open>amp\<close>; the first argument
  counts the iterations that remain.
\<close>

fun attemptLoop ::
  "(nat \<Rightarrow> real \<Rightarrow> trial_result) \<Rightarrow> real \<Rightarrow> bool \<Rightarrow> nat \<Rightarrow> nat \<Rightarrow> real \<Rightarrow>
   trial_result list \<Rightarrow> trial_result list \<Rightarrow> trial_result list \<times> trial_result list" where
  "attemptLoop trial minScore adaptAmp 0 i currentAmp results valid = (results, valid)"
| "attemptLoop trial minScore adaptAmp (Suc k) i currentAmp results valid =
     (let res = trial i currentAmp;
          results' = results @ [res];
          valid' = (if score_ge (score res) minScore then valid @ [res] else valid)
      in attemptLoop trial minScore adaptAmp k (Suc i) (nextAmp adaptAmp res currentAmp)
           results' valid')"

text \<open>
  \<open>pickMedianByLag\<close>: a stable sort by \<open>lagSamples\<close>, then the element at index
  \<open>floor(length / 2)\<close>, which is \<open>undefined\<close> for the empty array.
\<close>

definition pickMedianByLag :: "trial_result list \<Rightarrow> trial_result option" where
  "pickMedianByLag arr =
     (let sorted = sort_key lagSamples arr;
          i = length sorted div 2
      in if i < length sorted then Some (sorted ! i) else None)"

text \<open>The reducer of the fallback: the first trial with the strictly greatest score.\<close>

definition bestStep :: "trial_result option \<Rightarrow> trial_result \<Rightarrow> trial_result option" where
  "bestStep bestSoFar cur =
     (case bestSoFar of
        None \<Rightarrow> Some cur
      | Some b \<Rightarrow> if score_gt (score cur) (score b) then Some cur else Some b)"

datatype outcome = Trial trial_result | ZeroDefault | Undefined

definition calibrateLatencyRobust ::
  "(nat \<Rightarrow> real \<Rightarrow> trial_result) \<Rightarrow> nat \<Rightarrow> real \<Rightarrow> bool \<Rightarrow> real \<Rightarrow> outcome" where
  "calibrateLatencyRobust trial attempts minScore adaptAmp amp0 =
     (case attemptLoop trial minScore adaptAmp attempts 0 amp0 [] [] of
        (results, valid) \<Rightarrow>
          if 3 \<le> length valid \<or> 0 < length valid then
            (case pickMedianByLag valid of Some r \<Rightarrow> Trial r | None \<Rightarrow> Undefined)
          else (case foldl bestStep None results of
                  Some b \<Rightarrow> Trial b
                | None \<Rightarrow> ZeroDefault))"

section \<open>Rounded arithmetic\<close>

text \<open>
  The program adds, subtracts, multiplies, divides and takes square roots in IEEE double
  arithmetic, and rounds to single precision when it stores into a \<open>Float32Array\<close>. An
  \<open>arith\<close> gives these operations on finite values, and \<open>tiny\<close> is the double the
  literal \<open>1e-12\<close> denotes. Comparisons, \<open>Math.floor\<close>, \<open>Math.min\<close> and \<open>Math.max\<close> are exact
  on finite doubles, and so is halving an array length. A run in which an operation
  overflows or yields \<open>NaN\<close> is not described.
\<close>

record arith =
  fadd :: "real \<Rightarrow> real \<Rightarrow> real"
  fsub :: "real \<Rightarrow> real \<Rightarrow> real"
  fmul :: "real \<Rightarrow> real \<Rightarrow> real"
  fdiv :: "real \<Rightarrow> real \<Rightarrow> real"
  fsqrt :: "real \<Rightarrow> real"
  f32 :: "real \<Rightarrow> real"
  tiny :: real

text \<open>The arithmetic without rounding.\<close>

definition exactArith :: arith where
  "exactArith = \<lparr>fadd = (+), fsub = (-), fmul = (*), fdiv = (/), fsqrt = sqrt,
                  f32 = (\<lambda>v. v), tiny = 1 / 10 ^ 12\<rparr>"

text \<open>\<open>toF32\<close>: \<open>a.slice()\<close> keeps the single-precision values, \<open>Float32Array.from(a)\<close> rounds.\<close>

fun toF32Fl :: "arith \<Rightarrow> jsarray \<Rightarrow> real list" where
  "toF32Fl ar (Float32Array xs) = xs"
| "toF32Fl ar (NumberArray xs) = map (f32 ar) xs"

text \<open>\<open>zeroMean\<close>: \<open>m += a[i]\<close>, \<open>m /= a.length\<close>, and \<open>a[i] -= m\<close> stored in single precision.\<close>

definition zeroMeanFl :: "arith \<Rightarrow> real list \<Rightarrow> real list" where
  "zeroMeanFl ar a =
     (let m = fdiv ar (foldl (\<lambda>m v. fadd ar m v) 0 a) (real (length a))
      in map (\<lambda>v. f32 ar (fsub ar v m)) a)"

definition corrStepFl ::
  "arith \<Rightarrow> real list \<Rightarrow> real list \<Rightarrow> int \<Rightarrow> real \<times> real \<times> real \<Rightarrow> int \<Rightarrow> real \<times> real \<times> real" where
  "corrStepFl ar x y lag acc i =
     (case acc of (dot, xx, yy) \<Rightarrow>
        (let a = y ! nat i; b = x ! nat (i + lag)
         in (fadd ar dot (fmul ar a b), fadd ar xx (fmul ar b b), fadd ar yy (fmul ar a a))))"

definition corrSumsFl ::
  "arith \<Rightarrow> real list \<Rightarrow> real list \<Rightarrow> int \<Rightarrow> int \<Rightarrow> int \<Rightarrow> real \<times> real \<times> real" where
  "corrSumsFl ar x y lag yStart yEnd = foldl (corrStepFl ar x y lag) (0, 0, 0) [yStart..yEnd - 1]"

definition evalLagFl :: "arith \<Rightarrow> int \<Rightarrow> real list \<Rightarrow> real list \<Rightarrow> int \<Rightarrow> score" where
  "evalLagFl ar minOverlap x y lag =
     (let yStart = max 0 (- lag);
          yEnd = min (int (length y)) (int (length x) - lag)
      in if yEnd - yStart < minOverlap then NegInf
         else (case corrSumsFl ar x y lag yStart yEnd of (dot, xx, yy) \<Rightarrow>
                 if xx \<le> tiny ar \<or> yy \<le> tiny ar then NegInf
                 else Fin (fdiv ar dot (fsqrt ar (fmul ar xx yy)))))"

definition maxLagFl :: "arith \<Rightarrow> real \<Rightarrow> real \<Rightarrow> real list \<Rightarrow> real list \<Rightarrow> int" where
  "maxLagFl ar maxLagMs sampleRate x y =
     min \<lfloor>fmul ar (fdiv ar maxLagMs 1000) sampleRate\<rfloor> \<lfloor>real (max (length x) (length y)) / 2\<rfloor>"

definition lagSearchFl ::
  "arith \<Rightarrow> int \<Rightarrow> real list \<Rightarrow> real list \<Rightarrow> real \<Rightarrow> real \<Rightarrow> bool \<Rightarrow> lag_estimate" where
  "lagSearchFl ar minOverlap x y sampleRate maxLagMs allowNegative =
     (let maxLag = maxLagFl ar maxLagMs sampleRate x y
      in case scanLags (evalLagFl ar minOverlap x y) (lagRange allowNegative maxLag) of
           (bestLag, bestScore) \<Rightarrow>
             \<lparr>lagSamples = bestLag,
              lagMs = fmul ar (fdiv ar (real_of_int bestLag) sampleRate) 1000,
              score = bestScore\<rparr>)"

text \<open>
  \<open>estimateLagNormalized\<close> with rounded operations; \<open>minOverlap\<close> is 16 for the calibration
  module and 8 for recorder-utils.
\<close>

definition estimateLagFl :: "arith \<Rightarrow> int \<Rightarrow> jsarray \<Rightarrow> jsarray \<Rightarrow> real \<Rightarrow> opts \<Rightarrow> lag_estimate" where
  "estimateLagFl ar minOverlap mic ref sampleRate os =
     (let maxLagMs = maxLagMsOf os;
          allowNegative = allowNegativeOf os;
          x = zeroMeanFl ar (toF32Fl ar mic);
          y = zeroMeanFl ar (toF32Fl ar ref)
      in if length x < 8 \<or> length y < 8 then earlyOut
         else lagSearchFl ar minOverlap x y sampleRate maxLagMs allowNegative)"

section \<open>The recording gate\<close>

record gate_state =
  startAt :: "real option"
  endAt :: "real option"
  recording :: bool

text \<open>The messages of the port; a field that is absent or \<open>null\<close> is \<open>None\<close>.\<close>

datatype command =
    StartAtMsg "real option"
  | SetWindowMsg "real option" "real option"
  | StopMsg
  | OtherMsg

fun onmessage :: "gate_state \<Rightarrow> command \<Rightarrow> gate_state" where
  "onmessage st (StartAtMsg time) = st\<lparr>startAt := time, endAt := None, recording := False\<rparr>"
| "onmessage st (SetWindowMsg start end') = st\<lparr>startAt := start, endAt := end', recording := False\<rparr>"
| "onmessage st StopMsg = st\<lparr>recording := False, startAt := None, endAt := None\<rparr>"
| "onmessage st OtherMsg = st"

text \<open>
  One call of \<open>process\<close>: the channels of the two inputs and the value of
  \<open>currentTime\<close>. An absent input and an input without channels take the same branch
  in the source, so both are the empty list. Times are finite doubles; the arithmetic on
  them is that of an \<open>arith\<close>.
\<close>

record audio_block =
  micIn :: "real list list"
  refIn :: "real list list"
  currentTime :: real

record chunk =
  chunk_mic :: "real list list option"
  chunk_ref :: "real list list option"

text \<open>\<open>src.subarray(start, end)\<close> for \<open>0 \<le> start\<close>: both ends are clamped to the length.\<close>

definition subarray :: "nat \<Rightarrow> nat \<Rightarrow> real list \<Rightarrow> real list" where
  "subarray start end' src = drop start (take end' src)"

definition copyChannels :: "nat \<Rightarrow> nat \<Rightarrow> real list list \<Rightarrow> real list list option" where
  "copyChannels startFrameInBlock endFrameInBlock srcArray =
     (if srcArray = [] then None
      else Some (map (subarray startFrameInBlock endFrameInBlock) srcArray))"

text \<open>The end time \<open>t1 = t0 + blockSize / sampleRate\<close> of a block, as the program computes it.\<close>

definition blockEnd :: "arith \<Rightarrow> real \<Rightarrow> audio_block \<Rightarrow> real" where
  "blockEnd ar sampleRate blk =
     fadd ar (currentTime blk) (fdiv ar (real (length (hd (micIn blk)))) sampleRate)"

text \<open>\<open>Math.floor((t - t0) * sampleRate)\<close> for a block, as the program computes it.\<close>

definition frameOf :: "arith \<Rightarrow> real \<Rightarrow> audio_block \<Rightarrow> real \<Rightarrow> int" where
  "frameOf ar sampleRate blk t = \<lfloor>fmul ar (fsub ar t (currentTime blk)) sampleRate\<rfloor>"

definition process :: "arith \<Rightarrow> real \<Rightarrow> gate_state \<Rightarrow> audio_block \<Rightarrow> gate_state \<times> chunk option" where
  "process ar sampleRate st blk =
     (if micIn blk = [] then (st, None)
      else
        let blockSize = int (length (hd (micIn blk)));
            t0 = currentTime blk;
            t1 = blockEnd ar sampleRate blk
        in if \<not> recording st \<and> (case startAt st of None \<Rightarrow> True | Some s \<Rightarrow> t1 \<le> s)
           then (st, None)
           else
             let startFrameInBlock =
                   (if \<not> recording st
                    then max 0 (frameOf ar sampleRate blk (the (startAt st))) else 0);
                 st1 = st\<lparr>recording := True\<rparr>
             in if (case endAt st1 of None \<Rightarrow> False | Some e \<Rightarrow> e \<le> t0)
                then (st1\<lparr>recording := False\<rparr>, None)
                else
                  let willStopAfterThisBlock =
                        (case endAt st1 of None \<Rightarrow> False | Some e \<Rightarrow> e < t1);
                      endFrameInBlock =
                        (if willStopAfterThisBlock
                         then max 0 (frameOf ar sampleRate blk (the (endAt st1))) else blockSize);
                      framesToCopy = max 0 (endFrameInBlock - startFrameInBlock);
                      out = (if 0 < framesToCopy
                             then Some \<lparr>chunk_mic = copyChannels (nat startFrameInBlock)
                                                      (nat endFrameInBlock) (micIn blk),
                                        chunk_ref = copyChannels (nat startFrameInBlock)
                                                      (nat endFrameInBlock) (refIn blk)\<rparr>
                             else None)
                  in (if willStopAfterThisBlock
                      then st1\<lparr>recording := False, startAt := None, endAt := None\<rparr>
                      else st1, out))"

text \<open>The chunks posted while a sequence of blocks is processed, in order.\<close>

fun runBlocks :: "arith \<Rightarrow> real \<Rightarrow> gate_state \<Rightarrow> audio_block list \<Rightarrow> gate_state \<times> chunk list" where
  "runBlocks ar sampleRate st [] = (st, [])"
| "runBlocks ar sampleRate st (blk # blks) =
     (case process ar sampleRate st blk of
        (st', out) \<Rightarrow>
          (case runBlocks ar sampleRate st' blks of
             (st'', outs) \<Rightarrow> (st'', (case out of None \<Rightarrow> outs | Some c \<Rightarrow> c # outs))))"

section \<open>Notions used to state the properties\<close>



text \<open>The centred single-precision copy, the lags and the scores of a call with rounded operations.\<close>

definition centredFl :: "arith \<Rightarrow> jsarray \<Rightarrow> real list" where
  "centredFl ar a = zeroMeanFl ar (toF32Fl ar a)"







text \<open>Concrete signals: a late pulse pair, a short reference, and alternating signs.\<close>

definition mic26 :: "real list" where
  "mic26 = [0, 0, 0, 0, 0, 0, 0, 0, 0, 0, 0, 0, 0, 0, 0, 0, 0, 0, 0, 0, 0, 0, 0, 0, 1, - 1]"

definition ref16 :: "real list" where
  "ref16 = [1, - 1, 0, 0, 0, 0, 0, 0, 0, 0, 0, 0, 0, 0, 0, 0]"




text \<open>A store with a plain number array and a \<open>Float32Array\<close>.\<close>

definition store2 :: store where
  "store2 = [NumberArray [1, 2, 3, 4, 5, 6, 7, 8, 9], Float32Array [2, 0, 2, 0, 2, 0, 2, 0]]"

text \<open>Six trial results with the scores 0.9, 0.05, 0.3, 0.95, 0.1, 0.4.\<close>

definition mkTrial :: "int \<Rightarrow> real \<Rightarrow> trial_result" where
  "mkTrial lag sc =
     \<lparr>lagSamples = lag, lagMs = real_of_int lag / 48, score = Fin sc,
      micRms = 1 / 10, micClipped = False\<rparr>"

definition trials6 :: "trial_result list" where
  "trials6 = [mkTrial 10 (9 / 10), mkTrial 99 (5 / 100), mkTrial 20 (3 / 10),
              mkTrial 30 (95 / 100), mkTrial 98 (1 / 10), mkTrial 40 (4 / 10)]"

text \<open>The state of a new processor, and of one that has stopped.\<close>

definition idle :: gate_state where
  "idle = \<lparr>startAt = None, endAt = None, recording = False\<rparr>"

text \<open>
  Three consecutive blocks of 128 samples at 16384 Hz. A block lasts 1/128 s, and every
  time used with these blocks is a dyadic fraction on which the double operations of
  \<open>process\<close> are exact.
\<close>

definition blkA :: audio_block where
  "blkA = \<lparr>micIn = [replicate 128 (1 / 2)], refIn = [], currentTime = 0\<rparr>"

definition blkB :: audio_block where
  "blkB = \<lparr>micIn = [replicate 128 (1 / 4)], refIn = [], currentTime = 1 / 128\<rparr>"

definition blkC :: audio_block where
  "blkC = \<lparr>micIn = [replicate 128 (1 / 8)], refIn = [replicate 128 1], currentTime = 2 / 128\<rparr>"


chapter \<open>Properties\<close>

section \<open>Sums and centring\<close>

lemma foldl_add_sum_list: "foldl (\<lambda>m v. m + v) (s::real) a = s + sum_list a"
  by (induction a arbitrary: s) simp_all

lemma length_zeroMean: "length (zeroMean a) = length a"
  by (simp add: zeroMean_def Let_def)

lemma cs_step:
  fixes d a b xx yy :: real
  assumes xx: "0 \<le> xx" and yy: "0 \<le> yy" and d: "d\<^sup>2 \<le> xx * yy"
  shows "(d + a * b)\<^sup>2 \<le> (xx + b * b) * (yy + a * a)"
proof -
  define u where "u = a * b"
  define p where "p = xx * (a * a)"
  define q where "q = yy * (b * b)"
  have p: "0 \<le> p" and q: "0 \<le> q"
    using xx yy by (simp_all add: p_def q_def)
  have pq: "p * q = (xx * yy) * u\<^sup>2"
    by (simp add: p_def q_def u_def power2_eq_square)
  have "(d * u)\<^sup>2 = d\<^sup>2 * u\<^sup>2"
    by (rule power_mult_distrib)
  also have "\<dots> \<le> (xx * yy) * u\<^sup>2"
    using d by (rule mult_right_mono) simp
  finally have du: "(d * u)\<^sup>2 \<le> p * q"
    by (simp only: pq)
  have "(p + q)\<^sup>2 - 4 * (p * q) = (p - q)\<^sup>2"
    by (simp add: power2_sum power2_diff)
  moreover have "0 \<le> (p - q)\<^sup>2"
    by simp
  ultimately have "4 * (p * q) \<le> (p + q)\<^sup>2"
    by linarith
  then have four: "4 * (p * q) \<le> (p + q)\<^sup>2" .
  have "(2 * (d * u))\<^sup>2 = 4 * (d * u)\<^sup>2"
    by (simp add: power_mult_distrib)
  also have "\<dots> \<le> 4 * (p * q)"
    using du by (intro mult_left_mono) simp_all
  also note four
  finally have sq: "(2 * (d * u))\<^sup>2 \<le> (p + q)\<^sup>2" .
  have pq0: "0 \<le> p + q"
    using p q by (rule add_nonneg_nonneg)
  have cross: "2 * (d * u) \<le> p + q"
    using sq pq0 by (rule power2_le_imp_le)
  have lhs: "(d + u)\<^sup>2 = d\<^sup>2 + 2 * (d * u) + u\<^sup>2"
    by (simp add: power2_sum)
  have rhs: "(xx + b * b) * (yy + a * a) = xx * yy + p + q + u\<^sup>2"
    by (simp add: p_def q_def u_def power2_eq_square distrib_left distrib_right)
  have "d\<^sup>2 + 2 * (d * u) \<le> xx * yy + (p + q)"
    using d cross by (rule add_mono)
  then have "(d + u)\<^sup>2 \<le> xx * yy + p + q + u\<^sup>2"
    unfolding lhs by simp
  then show ?thesis
    unfolding rhs u_def .
qed

lemma corrStep_simp:
  "corrStep x y lag (d, xx, yy) i =
     (d + y ! nat i * x ! nat (i + lag), xx + x ! nat (i + lag) * x ! nat (i + lag),
      yy + y ! nat i * y ! nat i)"
  by (simp add: corrStep_def Let_def)

lemma corr_foldl_cs:
  "foldl (corrStep x y lag) (d, xx, yy) is = (d', xx', yy') \<Longrightarrow>
   0 \<le> xx \<Longrightarrow> 0 \<le> yy \<Longrightarrow> d\<^sup>2 \<le> xx * yy \<Longrightarrow>
   0 \<le> xx' \<and> 0 \<le> yy' \<and> d'\<^sup>2 \<le> xx' * yy'"
proof (induction "is" arbitrary: d xx yy)
  case Nil
  then show ?case by simp
next
  case (Cons i "is")
  let ?a = "y ! nat i" and ?b = "x ! nat (i + lag)"
  have step: "foldl (corrStep x y lag) (d + ?a * ?b, xx + ?b * ?b, yy + ?a * ?a) is = (d', xx', yy')"
    using Cons.prems(1) by (simp add: corrStep_simp)
  show ?case
  proof (rule Cons.IH [OF step])
    show "0 \<le> xx + ?b * ?b" using Cons.prems(2) by simp
    show "0 \<le> yy + ?a * ?a" using Cons.prems(3) by simp
    show "(d + ?a * ?b)\<^sup>2 \<le> (xx + ?b * ?b) * (yy + ?a * ?a)"
      using Cons.prems(2-4) by (rule cs_step)
  qed
qed

lemma corrSums_cs:
  assumes "corrSums x y lag s e = (d, xx, yy)"
  shows "0 \<le> xx \<and> 0 \<le> yy \<and> d\<^sup>2 \<le> xx * yy"
  using assms unfolding corrSums_def by (rule corr_foldl_cs) simp_all

lemma evalLag_le_one: "\<not> score_gt (evalLag m x y lag) (Fin 1)"
proof -
  obtain d xx yy where c: "corrSums x y lag (max 0 (- lag)) (min (int (length y)) (int (length x) - lag)) = (d, xx, yy)"
    by (metis prod_cases3)
  from corrSums_cs [OF c] have xx: "0 \<le> xx" and yy: "0 \<le> yy" and d: "d\<^sup>2 \<le> xx * yy"
    by simp_all
  have "d \<le> sqrt (xx * yy)"
    using d by (metis real_le_rsqrt)
  then have "xx * yy > 0 \<Longrightarrow> d / sqrt (xx * yy) \<le> 1"
    by (simp add: divide_le_eq)
  then have "\<not> (xx \<le> 1 / 10 ^ 12 \<or> yy \<le> 1 / 10 ^ 12) \<Longrightarrow> d / sqrt (xx * yy) \<le> 1"
    using xx yy by (simp add: not_le zero_less_mult_iff)
  then show ?thesis
    using c by (auto simp: evalLag_def Let_def)
qed

lemma corr_foldl_self:
  "foldl (corrStep x x 0) (s, s, s) is =
     (let t = s + sum_list (map (\<lambda>i. x ! nat i * x ! nat i) is) in (t, t, t))"
  by (induction "is" arbitrary: s) (simp_all add: corrStep_simp Let_def add.assoc)

lemma sum_list_upto_nth:
  "sum_list (map (\<lambda>i. f (x ! nat i)) [0..int (length x) - 1]) = sum_list (map f x)"
proof (induction x rule: rev_induct)
  case Nil
  show ?case by simp
next
  case (snoc v x)
  let ?L = "[0..int (length x) - 1]"
  have up: "[0..int (length (x @ [v])) - 1] = ?L @ [int (length x)]"
    using upto_rec2 [of 0 "int (length x)"] by simp
  have m: "map (\<lambda>i. f ((x @ [v]) ! nat i)) ?L = map (\<lambda>i. f (x ! nat i)) ?L"
    by (rule map_cong) (auto simp: nth_append)
  have "sum_list (map (\<lambda>i. f ((x @ [v]) ! nat i)) [0..int (length (x @ [v])) - 1])
          = sum_list (map (\<lambda>i. f ((x @ [v]) ! nat i)) ?L) + f v"
    unfolding up by simp
  also have "\<dots> = sum_list (map (\<lambda>i. f (x ! nat i)) ?L) + f v"
    unfolding m ..
  finally show ?case using snoc.IH by simp
qed

lemma corrSums_self: "corrSums x x 0 0 (int (length x)) = (energy x, energy x, energy x)"
  unfolding corrSums_def corr_foldl_self energy_def
  by (simp add: Let_def sum_list_upto_nth [of "\<lambda>v. v * v" x])

lemma evalLag_self:
  assumes "m \<le> int (length x)" and "1 / 10 ^ 12 < energy x"
  shows "evalLag m x x 0 = Fin 1"
proof -
  have pos: "0 < energy x" using assms(2) by (rule less_trans [rotated]) simp
  then have one: "energy x / sqrt (energy x * energy x) = 1" by simp
  have big: "\<not> energy x \<le> 1 / 10 ^ 12" using assms(2) by simp
  have ov: "\<not> int (length x) < m" using assms(1) by simp
  show ?thesis
    using pos big ov by (simp add: evalLag_def Let_def corrSums_self)
qed

lemma score_gt_NegInf: "score_gt a NegInf \<longleftrightarrow> a \<noteq> NegInf"
  by (cases a) simp_all

lemma score_gt_irrefl: "\<not> score_gt a a"
  by (cases a) simp_all

lemma score_gt_pass: "score_gt a b \<Longrightarrow> \<not> score_gt c b \<Longrightarrow> \<not> score_gt c a \<and> c \<noteq> a"
  by (cases a; cases b; cases c) auto

lemma scanLags_snoc: "scanLags ev (lags @ [l]) = scanStep ev (scanLags ev lags) l"
  by (simp add: scanLags_def)

lemma scanInv_step:
  assumes inv: "scanInv ev lags best" and above: "\<forall>k\<in>set lags. k < l"
  shows "scanInv ev (lags @ [l]) (scanStep ev best l)"
proof (cases best)
  case (Pair bl bs)
  show ?thesis
  proof (cases "score_gt (ev l) bs")
    case True
    have new: "scanStep ev best l = (l, ev l)"
      using True Pair by (simp add: scanStep_def)
    have ne: "ev l \<noteq> NegInf" using True by (cases "ev l") simp_all
    have old: "\<forall>k\<in>set lags. \<not> score_gt (ev k) bs"
      using inv Pair by (auto simp: scanInv_def score_gt_irrefl)
    have "\<forall>k\<in>set lags. \<not> score_gt (ev k) (ev l) \<and> ev k \<noteq> ev l"
      using score_gt_pass [OF True] old by blast
    then show ?thesis
      using ne new by (auto simp: scanInv_def score_gt_irrefl)
  next
    case False
    have same: "scanStep ev best l = (bl, bs)"
      using False Pair by (simp add: scanStep_def)
    show ?thesis
    proof (cases "bs = NegInf")
      case True
      then have "ev l = NegInf" using False by (simp add: score_gt_NegInf)
      then show ?thesis using inv Pair True same by (auto simp: scanInv_def)
    next
      case nb: False
      then have "bl \<in> set lags" using inv Pair by (auto simp: scanInv_def)
      then have "bl \<le> l" using above by auto
      then show ?thesis using inv Pair nb same False by (auto simp: scanInv_def)
    qed
  qed
qed

lemma scanInv_scanLags:
  "sorted_wrt (<) lags \<Longrightarrow> scanInv ev lags (scanLags ev lags)"
proof (induction lags rule: rev_induct)
  case Nil
  show ?case by (simp add: scanInv_def scanLags_def)
next
  case (snoc l lags)
  then have "scanInv ev lags (scanLags ev lags)" and "\<forall>k\<in>set lags. k < l"
    by (auto simp: sorted_wrt_append)
  then show ?case
    unfolding scanLags_snoc by (rule scanInv_step)
qed

section \<open>Evaluating the estimator\<close>

lemmas est_defs = estimateLagNormalized_def estimateLagNormalized_utils_def estimateLagGen_def
  no_opts_def maxLagMsOf_def allowNegativeOf_def toF32_def zeroMean_def lagSearch_def maxLagOf_def
  lagRange_def scanLags_def scanStep_def evalLag_def corrSums_def corrStep_def earlyOut_def

lemma estimateLagGen_cases:
  "(length mic < 8 \<or> length ref < 8 \<longrightarrow> estimateLagGen m mic ref sampleRate os = earlyOut) \<and>
   (\<not> (length mic < 8 \<or> length ref < 8) \<longrightarrow>
      estimateLagGen m mic ref sampleRate os =
        lagSearch m (zeroMean mic) (zeroMean ref) sampleRate (maxLagMsOf os) (allowNegativeOf os))"
  by (simp add: estimateLagGen_def Let_def toF32_def length_zeroMean)

section \<open>The estimator with rounded operations\<close>

lemma length_zeroMeanFl: "length (zeroMeanFl ar a) = length a"
  by (simp add: zeroMeanFl_def Let_def)

lemma length_toF32Fl: "length (toF32Fl ar a) = length (elems a)"
  by (cases a) simp_all

lemma length_centredFl: "length (centredFl ar a) = length (elems a)"
  by (simp add: centredFl_def length_zeroMeanFl length_toF32Fl)

lemma maxLagFl_div:
  "maxLagFl ar maxLagMs sampleRate x y =
     min \<lfloor>fmul ar (fdiv ar maxLagMs 1000) sampleRate\<rfloor> (int (max (length x) (length y) div 2))"
proof -
  have "\<lfloor>real (max (length x) (length y)) / 2\<rfloor> = int (max (length x) (length y) div 2)"
    using floor_divide_of_nat_eq [of "max (length x) (length y)" 2, where ?'a = real] by simp
  then show ?thesis by (simp add: maxLagFl_def)
qed

lemma lagSearchFl_fields:
  "lagSamples (lagSearchFl ar m x y sr ms an)
     = fst (scanLags (evalLagFl ar m x y) (lagRange an (maxLagFl ar ms sr x y)))"
  "score (lagSearchFl ar m x y sr ms an)
     = snd (scanLags (evalLagFl ar m x y) (lagRange an (maxLagFl ar ms sr x y)))"
  by (simp_all add: lagSearchFl_def Let_def split: prod.splits)

lemma estimateLagFl_cases:
  "(length (elems mic) < 8 \<or> length (elems ref) < 8 \<longrightarrow>
      estimateLagFl ar m mic ref sampleRate os = earlyOut) \<and>
   (\<not> (length (elems mic) < 8 \<or> length (elems ref) < 8) \<longrightarrow>
      estimateLagFl ar m mic ref sampleRate os =
        lagSearchFl ar m (centredFl ar mic) (centredFl ar ref) sampleRate
          (maxLagMsOf os) (allowNegativeOf os))"
  by (simp add: estimateLagFl_def Let_def centredFl_def length_zeroMeanFl length_toF32Fl)

text \<open>With the arithmetic that does not round, the estimator is the one of the first section.\<close>

lemma exact_sel:
  "fadd exactArith = (+)" "fsub exactArith = (-)" "fmul exactArith = (*)" "fdiv exactArith = (/)"
  "fsqrt exactArith = sqrt" "f32 exactArith = (\<lambda>v. v)" "tiny exactArith = 1 / 10 ^ 12"
  by (simp_all add: exactArith_def)

lemma zeroMeanFl_exact: "zeroMeanFl exactArith a = zeroMean a"
  by (simp add: zeroMeanFl_def zeroMean_def exact_sel)

lemma corrSumsFl_exact: "corrSumsFl exactArith x y lag s e = corrSums x y lag s e"
proof -
  have "corrStepFl exactArith x y lag = corrStep x y lag"
    by (intro ext) (simp add: corrStepFl_def corrStep_def exact_sel split: prod.splits)
  then show ?thesis
    by (simp add: corrSumsFl_def corrSums_def)
qed

lemma evalLagFl_exact: "evalLagFl exactArith m x y lag = evalLag m x y lag"
  by (simp add: evalLagFl_def evalLag_def corrSumsFl_exact exact_sel Let_def split: prod.splits)

lemma estimateLagFl_exact:
  "estimateLagFl exactArith m (NumberArray mic) (NumberArray ref) sampleRate os
     = estimateLagGen m mic ref sampleRate os"
proof -
  have ev: "evalLagFl exactArith m x y = evalLag m x y" for x y
    by (rule ext) (rule evalLagFl_exact)
  have ml: "maxLagFl exactArith ms sr x y = maxLagOf ms sr x y" for ms sr x y
    by (simp add: maxLagFl_def maxLagOf_def exact_sel)
  have ls: "lagSearchFl exactArith m x y sr ms an = lagSearch m x y sr ms an" for x y sr ms an
    by (simp add: lagSearchFl_def lagSearch_def ev ml exact_sel Let_def)
  have f: "toF32Fl exactArith (NumberArray a) = a" for a
    by (simp add: exact_sel)
  show ?thesis
    by (simp add: estimateLagFl_def estimateLagGen_def exact_sel zeroMeanFl_exact ls toF32_def Let_def)
qed


section \<open>The early-out (claim C6)\<close>

text \<open>
  C6, as amended: the estimator returns the early-out result \<open>{lagSamples: 0, lagMs: 0, score: 0}\<close>
  when at least one of the two inputs is shorter than 8 samples; when both have 8 samples or
  more it returns what the correlation search over the centred copies returns. This holds
  for both copies of the function.
\<close>

theorem early_out_either_short:
  "(length mic < 8 \<or> length ref < 8 \<longrightarrow>
      estimateLagNormalized mic ref sampleRate os = earlyOut \<and>
      estimateLagNormalized_utils mic ref sampleRate os = earlyOut) \<and>
   (\<not> (length mic < 8 \<or> length ref < 8) \<longrightarrow>
      estimateLagNormalized mic ref sampleRate os =
        lagSearch 16 (zeroMean mic) (zeroMean ref) sampleRate (maxLagMsOf os) (allowNegativeOf os) \<and>
      estimateLagNormalized_utils mic ref sampleRate os =
        lagSearch 8 (zeroMean mic) (zeroMean ref) sampleRate (maxLagMsOf os) (allowNegativeOf os))"
  using estimateLagGen_cases [of mic ref 16 sampleRate os]
        estimateLagGen_cases [of mic ref 8 sampleRate os]
  by (simp add: estimateLagNormalized_def estimateLagNormalized_utils_def)

text \<open>Both branches of C6 at concrete inputs: a 3-sample capture, and two 8-sample inputs.\<close>

theorem early_out_either_short_witness:
  "estimateLagNormalized [1, 2, 3] [1, - 1, 1, - 1, 1, - 1, 1, - 1] 48000 no_opts = earlyOut \<and>
   estimateLagNormalized_utils [1, 2, 3] [1, - 1, 1, - 1, 1, - 1, 1, - 1] 48000 no_opts = earlyOut \<and>
   estimateLagNormalized [1, - 1, 1, - 1, 1, - 1, 1, - 1] [1, - 1, 1, - 1, 1, - 1, 1, - 1] 48000 no_opts =
     lagSearch 16 (zeroMean [1, - 1, 1, - 1, 1, - 1, 1, - 1]) (zeroMean [1, - 1, 1, - 1, 1, - 1, 1, - 1])
       48000 (maxLagMsOf no_opts) (allowNegativeOf no_opts)"
  using early_out_either_short [of "[1, 2, 3]" "[1, - 1, 1, - 1, 1, - 1, 1, - 1]" 48000 no_opts]
        early_out_either_short [of "[1, - 1, 1, - 1, 1, - 1, 1, - 1]" "[1, - 1, 1, - 1, 1, - 1, 1, - 1]" 48000 no_opts]
  by simp

text \<open>
  C6 as stated fails: with a 4-sample capture and an 8-sample reference the inputs are not
  both shorter than 8, yet the early-out result is returned, and it differs from the
  result of the correlation search on these inputs.
\<close>

theorem early_out_one_short_counterexample:
  "\<not> (length [1, - 1, 1, - 1 :: real] < 8 \<and> length [1, - 1, 1, - 1, 1, - 1, 1, - 1 :: real] < 8) \<and>
   estimateLagNormalized [1, - 1, 1, - 1] [1, - 1, 1, - 1, 1, - 1, 1, - 1] 48000 no_opts = earlyOut \<and>
   lagSearch 16 (zeroMean [1, - 1, 1, - 1]) (zeroMean [1, - 1, 1, - 1, 1, - 1, 1, - 1]) 48000
     (maxLagMsOf no_opts) (allowNegativeOf no_opts) \<noteq> earlyOut"
  by (simp add: est_defs upto_rec1)

section \<open>Degenerate input (claim C5)\<close>

text \<open>
  C5 at a constant pair of 16 samples each, sample rate 48000 and default options: the
  inputs pass the early-out, lag 0 has the full overlap of 16 samples and zero energy after
  centring, the lags 1 to 8 have too little overlap, so every lag is excluded and the
  estimate that is returned carries the score \<open>-Infinity\<close>, not a number in \<open>[-1, 1]\<close>.
\<close>

theorem constant_input_score_neg_inf:
  "estimateLagNormalized [1, 1, 1, 1, 1, 1, 1, 1, 1, 1, 1, 1, 1, 1, 1, 1]
     [1, 1, 1, 1, 1, 1, 1, 1, 1, 1, 1, 1, 1, 1, 1, 1] 48000 no_opts =
     \<lparr>lagSamples = 0, lagMs = 0, score = NegInf\<rparr>"
  by (simp add: est_defs upto_rec1)

section \<open>The search bound (claim C3)\<close>

lemma sorted_lagRange: "sorted_wrt (<) (lagRange an M)"
  by (simp add: lagRange_def sorted_wrt_upto)

lemma set_lagRange_bound: "l \<in> set (lagRange an M) \<Longrightarrow> \<bar>l\<bar> \<le> max 0 M"
  by (auto simp: lagRange_def split: if_splits)

lemma maxLagOf_div:
  "maxLagOf maxLagMs sampleRate x y =
     min \<lfloor>maxLagMs / 1000 * sampleRate\<rfloor> (int (max (length x) (length y) div 2))"
proof -
  have "\<lfloor>real (max (length x) (length y)) / 2\<rfloor> = int (max (length x) (length y) div 2)"
    using floor_divide_of_nat_eq [of "max (length x) (length y)" 2, where ?'a = real] by simp
  then show ?thesis by (simp add: maxLagOf_def)
qed

lemma scan_lag_in_range:
  assumes "sorted_wrt (<) lags"
  shows "fst (scanLags ev lags) = 0 \<or> fst (scanLags ev lags) \<in> set lags"
  using scanInv_scanLags [OF assms, of ev]
  by (cases "scanLags ev lags") (auto simp: scanInv_def)


lemma lagSearchFl_bound:
  "\<bar>lagSamples (lagSearchFl ar m x y sr ms an)\<bar> \<le> max 0 (maxLagFl ar ms sr x y)"
  using scan_lag_in_range [OF sorted_lagRange, of "evalLagFl ar m x y" an "maxLagFl ar ms sr x y"]
        set_lagRange_bound [of "lagSamples (lagSearchFl ar m x y sr ms an)" an "maxLagFl ar ms sr x y"]
  by (auto simp: lagSearchFl_fields)

lemma estimateLagFl_bound:
  "\<bar>lagSamples (estimateLagFl ar m mic ref sr os)\<bar>
     \<le> max 0 (maxLagFl ar (maxLagMsOf os) sr (centredFl ar mic) (centredFl ar ref))"
proof (cases "length (elems mic) < 8 \<or> length (elems ref) < 8")
  case True
  then have "estimateLagFl ar m mic ref sr os = earlyOut"
    using estimateLagFl_cases [of mic ref ar m sr os] by blast
  then show ?thesis by (simp add: earlyOut_def)
next
  case False
  then have "estimateLagFl ar m mic ref sr os =
      lagSearchFl ar m (centredFl ar mic) (centredFl ar ref) sr (maxLagMsOf os) (allowNegativeOf os)"
    using estimateLagFl_cases [of mic ref ar m sr os] by blast
  then show ?thesis
    using lagSearchFl_bound [of ar m "centredFl ar mic" "centredFl ar ref" sr "maxLagMsOf os" "allowNegativeOf os"]
    by simp
qed

text \<open>
  C3, as amended: the search bound \<open>maxLag\<close> is the minimum of
  \<open>floor((maxLagMs / 1000) * sampleRate)\<close>, with the quotient and the product as the program
  rounds them, and half the length of the longer of the two inputs (\<open>Math.max\<close> of the
  lengths, halved and floored); and the lag that either copy of the estimator returns is
  at most \<open>max(0, maxLag)\<close> in absolute value. This holds for every rounding of the
  operations.
\<close>

theorem maxLag_half_of_longer_input:
  "maxLagFl ar maxLagMs sampleRate (centredFl ar mic) (centredFl ar ref) =
     min \<lfloor>fmul ar (fdiv ar maxLagMs 1000) sampleRate\<rfloor>
         (int (max (length (elems mic)) (length (elems ref)) div 2)) \<and>
   \<bar>lagSamples (estimateLagFl ar 16 mic ref sampleRate os)\<bar>
     \<le> max 0 (min \<lfloor>fmul ar (fdiv ar (maxLagMsOf os) 1000) sampleRate\<rfloor>
                  (int (max (length (elems mic)) (length (elems ref)) div 2))) \<and>
   \<bar>lagSamples (estimateLagFl ar 8 mic ref sampleRate os)\<bar>
     \<le> max 0 (min \<lfloor>fmul ar (fdiv ar (maxLagMsOf os) 1000) sampleRate\<rfloor>
                  (int (max (length (elems mic)) (length (elems ref)) div 2)))"
  using estimateLagFl_bound [of ar 16 mic ref sampleRate os]
        estimateLagFl_bound [of ar 8 mic ref sampleRate os]
  by (simp add: maxLagFl_div length_centredFl)

text \<open>
  C3 as stated fails: for a 26-sample capture and a 16-sample reference at 48000 Hz the
  bound is 13, not half the shorter length (8), and the estimator returns lag 9.
\<close>

theorem maxLag_shorter_input_counterexample:
  "maxLagOf 120 48000 (zeroMean mic26) (zeroMean ref16) = 13 \<and>
   min \<lfloor>(120 / 1000) * 48000 :: real\<rfloor> \<lfloor>real (min (length mic26) (length ref16)) / 2\<rfloor> = 8 \<and>
   lagSamples (estimateLagNormalized mic26 ref16 48000 no_opts) = 9"
  by (simp add: est_defs mic26_def ref16_def upto_rec1)

section \<open>The two copies of the estimator (claim C9)\<close>










section \<open>Ties between lags (claim C4)\<close>





section \<open>Self-correlation (claim C7)\<close>

text \<open>
  In exact arithmetic the score at lag 0 of a signal with itself is 1 and no lag scores
  more, so the non-negative search returns lag 0 and score 1.
\<close>

lemma scan_stays_at_one:
  assumes "\<forall>l. \<not> score_gt (ev l) (Fin 1)"
  shows "foldl (scanStep ev) (b, Fin 1) lags = (b, Fin 1)"
  using assms by (induction lags) (simp_all add: scanStep_def)

lemma scanLags_first_is_one:
  assumes "ev 0 = Fin 1" and "\<forall>l. \<not> score_gt (ev l) (Fin 1)" and "0 \<le> M"
  shows "scanLags ev [0..M] = (0, Fin 1)"
proof -
  have "[0..M] = 0 # [1..M]"
    using assms(3) upto_rec1 [of 0 M] by simp
  then show ?thesis
    using assms(1) scan_stays_at_one [OF assms(2), of 0 "[1..M]"]
    by (simp add: scanLags_def scanStep_def)
qed

lemma self_correlation_exact_arithmetic:
  assumes "16 \<le> length s"
    and "1 / 10 ^ 12 < energy (zeroMean s)"
    and "0 < sampleRate"
    and "0 \<le> maxLagMsOf os"
    and "\<not> allowNegativeOf os"
  shows "estimateLagNormalized s s sampleRate os = \<lparr>lagSamples = 0, lagMs = 0, score = Fin 1\<rparr>"
proof -
  let ?x = "zeroMean s"
  let ?M = "maxLagOf (maxLagMsOf os) sampleRate ?x ?x"
  have len: "length ?x = length s" by (rule length_zeroMean)
  have "0 \<le> maxLagMsOf os / 1000 * sampleRate"
    using assms(3,4) by simp
  then have M: "0 \<le> ?M"
    by (simp add: maxLagOf_div)
  have zero: "evalLag 16 ?x ?x 0 = Fin 1"
    using assms(1,2) by (intro evalLag_self) (simp_all add: len)
  have scan: "scanLags (evalLag 16 ?x ?x) [0..?M] = (0, Fin 1)"
    using zero evalLag_le_one M by (intro scanLags_first_is_one) simp_all
  have "lagSearch 16 ?x ?x sampleRate (maxLagMsOf os) (allowNegativeOf os)
          = \<lparr>lagSamples = 0, lagMs = 0, score = Fin 1\<rparr>"
    using assms(5) scan by (simp add: lagSearch_def lagRange_def Let_def)
  then show ?thesis
    using assms(1) estimateLagGen_cases [of s s 16 sampleRate os]
    by (simp add: estimateLagNormalized_def)
qed















section \<open>Scaling the captured signal (claim C8)\<close>
















section \<open>The arguments are not mutated (claim C10)\<close>

lemma toF32_st_eq: "toF32_st h a = (length h, h @ [Float32Array (elems (h ! a))])"
  by (cases "h ! a") (simp_all add: toF32_st_def)

lemma length_writeElem: "length (writeElem h a i v) = length h"
  by (simp add: writeElem_def)

lemma writeElem_other: "b \<noteq> a \<Longrightarrow> writeElem h a i v ! b = h ! b"
  by (simp add: writeElem_def)

lemma writeElem_same: "a < length h \<Longrightarrow> elems (writeElem h a i v ! a) = (elems (h ! a))[i := v]"
  by (cases "h ! a") (simp_all add: writeElem_def)

lemma write_loop_frame:
  "length (foldl (\<lambda>h' i. writeElem h' a i (g h' i)) h is) = length h \<and>
   (b \<noteq> a \<longrightarrow> foldl (\<lambda>h' i. writeElem h' a i (g h' i)) h is ! b = h ! b)"
  by (induction "is" arbitrary: h) (simp_all add: length_writeElem writeElem_other)

lemma zeroMean_st_frame:
  "length (zeroMean_st h a) = length h \<and> (b \<noteq> a \<longrightarrow> zeroMean_st h a ! b = h ! b)"
  unfolding zeroMean_st_def Let_def
  by (rule write_loop_frame)

lemma index_sum: "foldl (\<lambda>m i. m + xs ! i) (s::real) [0..<k] = s + sum_list (take k xs)" if "k \<le> length xs"
  using that by (induction k) (simp_all add: take_Suc_conv_app_nth)

lemma centre_prefix_step:
  assumes "k < length xs"
  shows "(map f (take k xs) @ drop k xs)[k := f (xs ! k)] = map f (take (Suc k) xs) @ drop (Suc k) xs"
proof -
  have "drop k xs = xs ! k # drop (Suc k) xs"
    using assms by (simp add: Cons_nth_drop_Suc)
  then show ?thesis
    using assms by (simp add: take_Suc_conv_app_nth list_update_append)
qed

lemma write_loop_centre:
  assumes "a < length h" and "k \<le> length (elems (h ! a))"
  shows "elems (foldl (\<lambda>h' i. writeElem h' a i (elems (h' ! a) ! i - m)) h [0..<k] ! a) =
           map (\<lambda>v. v - m) (take k (elems (h ! a))) @ drop k (elems (h ! a))"
  using assms(2)
proof (induction k)
  case 0
  show ?case by simp
next
  case (Suc k)
  let ?xs = "elems (h ! a)"
  let ?h = "foldl (\<lambda>h' i. writeElem h' a i (elems (h' ! a) ! i - m)) h [0..<k]"
  have k: "k < length ?xs" using Suc.prems by simp
  have pre: "elems (?h ! a) = map (\<lambda>v. v - m) (take k ?xs) @ drop k ?xs"
    using Suc.IH k by simp
  have len: "a < length ?h"
    using assms(1) write_loop_frame [of a "\<lambda>h' i. elems (h' ! a) ! i - m" h "[0..<k]" a] by simp
  have at: "(map (\<lambda>v. v - m) (take k ?xs) @ drop k ?xs) ! k = ?xs ! k"
    using k by (simp add: nth_append)
  have "elems (writeElem ?h a k (elems (?h ! a) ! k - m) ! a) =
          (elems (?h ! a))[k := elems (?h ! a) ! k - m]"
    by (rule writeElem_same [OF len])
  also have "\<dots> = (map (\<lambda>v. v - m) (take k ?xs) @ drop k ?xs)[k := ?xs ! k - m]"
    by (simp only: pre at)
  also have "\<dots> = map (\<lambda>v. v - m) (take (Suc k) ?xs) @ drop (Suc k) ?xs"
    using centre_prefix_step [OF k, of "\<lambda>v. v - m"] by simp
  finally show ?case by simp
qed

lemma zeroMean_st_contents:
  assumes "a < length h"
  shows "elems (zeroMean_st h a ! a) = zeroMean (elems (h ! a))"
  using write_loop_centre [OF assms, of "length (elems (h ! a))"]
        index_sum [of "length (elems (h ! a))" "elems (h ! a)" 0]
  by (simp add: zeroMean_st_def zeroMean_def Let_def foldl_add_sum_list)

text \<open>
  C10: \<open>estimateLagNormalized\<close> never mutates its \<open>mic\<close> or \<open>ref\<close> argument. After the call
  the arrays at both references, and every other array that existed before the call, hold
  the values they held before: the centring writes only to the two copies that \<open>toF32\<close>
  allocates. The call returns what the function on values returns for the contents of the
  two arguments.
\<close>

theorem inputs_not_mutated:
  assumes "mic < length h" and "ref < length h"
  shows "snd (estimateLagNormalized_st h mic ref sampleRate os) ! mic = h ! mic \<and>
         snd (estimateLagNormalized_st h mic ref sampleRate os) ! ref = h ! ref \<and>
         take (length h) (snd (estimateLagNormalized_st h mic ref sampleRate os)) = h \<and>
         fst (estimateLagNormalized_st h mic ref sampleRate os)
           = estimateLagNormalized (elems (h ! mic)) (elems (h ! ref)) sampleRate os"
proof -
  let ?x = "length h" and ?y = "Suc (length h)"
  let ?h2 = "h @ [Float32Array (elems (h ! mic)), Float32Array (elems (h ! ref))]"
  let ?h3 = "zeroMean_st ?h2 ?x"
  let ?h4 = "zeroMean_st ?h3 ?y"
  have alloc: "toF32_st h mic = (?x, h @ [Float32Array (elems (h ! mic))])"
    "toF32_st (h @ [Float32Array (elems (h ! mic))]) ref = (?y, ?h2)"
    using assms(2) by (simp_all add: toF32_st_eq nth_append)
  have l3: "length ?h3 = length h + 2" and l4: "length ?h4 = length h + 2"
    using zeroMean_st_frame [of ?h2 ?x] zeroMean_st_frame [of ?h3 ?y] by simp_all
  have frame: "?h4 ! b = h ! b" if "b < length h" for b
  proof -
    have "?h4 ! b = ?h3 ! b" using that zeroMean_st_frame [of ?h3 ?y b] by simp
    also have "\<dots> = ?h2 ! b" using that zeroMean_st_frame [of ?h2 ?x b] by simp
    also have "\<dots> = h ! b" using that by (simp add: nth_append)
    finally show ?thesis .
  qed
  have tk: "take (length h) ?h4 = h"
    by (rule nth_equalityI) (simp_all add: l4 frame)
  have x3: "elems (?h3 ! ?x) = zeroMean (elems (h ! mic))"
    using zeroMean_st_contents [of ?x ?h2] by (simp add: nth_append)
  have x4: "elems (?h4 ! ?x) = zeroMean (elems (h ! mic))"
    using zeroMean_st_frame [of ?h3 ?y ?x] x3 by simp
  have y3: "?h3 ! ?y = Float32Array (elems (h ! ref))"
    using zeroMean_st_frame [of ?h2 ?x ?y] by (simp add: nth_append)
  have y4: "elems (?h4 ! ?y) = zeroMean (elems (h ! ref))"
    using zeroMean_st_contents [of ?y ?h3] l3 by (simp add: y3)
  have run: "estimateLagNormalized_st h mic ref sampleRate os =
      (estimateLagNormalized (elems (h ! mic)) (elems (h ! ref)) sampleRate os, ?h4)"
    by (simp add: estimateLagNormalized_st_def alloc Let_def x4 y4
        estimateLagNormalized_def estimateLagGen_def toF32_def)
  show ?thesis
    using assms frame tk by (simp add: run)
qed

text \<open>C10 at a store with a number array as \<open>mic\<close> and a \<open>Float32Array\<close> as \<open>ref\<close>.\<close>

theorem inputs_not_mutated_witness:
  "snd (estimateLagNormalized_st store2 0 1 48000 no_opts) ! 0 = NumberArray [1, 2, 3, 4, 5, 6, 7, 8, 9] \<and>
   snd (estimateLagNormalized_st store2 0 1 48000 no_opts) ! 1 = Float32Array [2, 0, 2, 0, 2, 0, 2, 0] \<and>
   take 2 (snd (estimateLagNormalized_st store2 0 1 48000 no_opts)) = store2 \<and>
   (0::nat) < length store2 \<and> (1::nat) < length store2"
proof -
  have a: "0 < length store2" and b: "1 < length store2"
    by (simp_all add: store2_def)
  have l: "length store2 = 2" by (simp add: store2_def)
  show ?thesis
    using inputs_not_mutated [OF a b, of 48000 no_opts] a b
    by (simp add: l) (simp add: store2_def)
qed

section \<open>Robust aggregation (claim C2)\<close>

lemma attemptLoop_valid:
  assumes "attemptLoop trial minScore adaptAmp k i amp results valid = (results', valid')"
    and "valid = filter (\<lambda>r. score_ge (score r) minScore) results"
  shows "valid' = filter (\<lambda>r. score_ge (score r) minScore) results' \<and>
         length results' = length results + k"
  using assms
proof (induction k arbitrary: i amp results valid)
  case 0
  then show ?case by auto
next
  case (Suc k)
  let ?res = "trial i amp"
  let ?valid = "if score_ge (score ?res) minScore then valid @ [?res] else valid"
  have run: "attemptLoop trial minScore adaptAmp k (Suc i) (nextAmp adaptAmp ?res amp)
               (results @ [?res]) ?valid = (results', valid')"
    using Suc.prems(1) by (simp add: Let_def)
  have "?valid = filter (\<lambda>r. score_ge (score r) minScore) (results @ [?res])"
    using Suc.prems(2) by simp
  from Suc.IH [OF run this] show ?case by simp
qed

lemma pickMedianByLag_nonempty:
  "arr \<noteq> [] \<Longrightarrow> pickMedianByLag arr = Some (sort_key lagSamples arr ! (length arr div 2))"
  by (simp add: pickMedianByLag_def Let_def)

lemma trials6_loop:
  "attemptLoop (\<lambda>i amp. trials6 ! i) (2 / 10) True 6 0 (6 / 10) [] [] =
     (trials6, [mkTrial 10 (9 / 10), mkTrial 20 (3 / 10), mkTrial 30 (95 / 100), mkTrial 40 (4 / 10)])"
  by (simp add: eval_nat_numeral trials6_def mkTrial_def Let_def)

text \<open>
  C2, as amended: when at least one trial meets the minimum acceptance score, the valid
  trials are exactly the trials whose score is at least \<open>minScore\<close>, in the order of the
  attempts, and the returned result is the element at index \<open>floor(n / 2)\<close> of the valid
  trials sorted by \<open>lagSamples\<close> (stable sort, no interpolation): the median for an odd
  number \<open>n\<close> of valid trials, the upper-middle element for an even number.
\<close>

theorem robust_returns_upper_middle_by_lag:
  assumes "attemptLoop trial minScore adaptAmp attempts 0 amp0 [] [] = (results, valid)"
    and "valid \<noteq> []"
  shows "length results = attempts \<and>
         valid = filter (\<lambda>r. score_ge (score r) minScore) results \<and>
         calibrateLatencyRobust trial attempts minScore adaptAmp amp0
           = Trial (sort_key lagSamples valid ! (length valid div 2))"
proof -
  have "valid = filter (\<lambda>r. score_ge (score r) minScore) results \<and> length results = attempts"
    using attemptLoop_valid [OF assms(1)] by simp
  moreover have "calibrateLatencyRobust trial attempts minScore adaptAmp amp0
      = Trial (sort_key lagSamples valid ! (length valid div 2))"
    using assms by (simp add: calibrateLatencyRobust_def pickMedianByLag_nonempty)
  ultimately show ?thesis by simp
qed

text \<open>
  C2 for the trial scores 0.9, 0.05, 0.3, 0.95, 0.1, 0.4 with threshold 0.2 and the lags
  10, 99, 20, 30, 98, 40: the trial with lag 30 is returned.
\<close>

theorem robust_returns_upper_middle_by_lag_witness:
  "calibrateLatencyRobust (\<lambda>i amp. trials6 ! i) 6 (2 / 10) True (6 / 10) = Trial (mkTrial 30 (95 / 100))"
  using robust_returns_upper_middle_by_lag [OF trials6_loop]
  by (simp add: mkTrial_def)

text \<open>
  C2 as stated fails on the same trials: the valid trials are those scoring 0.9, 0.3,
  0.95 and 0.4, the lower-middle of them by lag is the trial with lag 20, and the trial
  with lag 30 is returned.
\<close>

theorem robust_lower_middle_counterexample:
  "filter (\<lambda>r. score_ge (score r) (2 / 10)) trials6
     = [mkTrial 10 (9 / 10), mkTrial 20 (3 / 10), mkTrial 30 (95 / 100), mkTrial 40 (4 / 10)] \<and>
   sort_key lagSamples (filter (\<lambda>r. score_ge (score r) (2 / 10)) trials6) ! 1 = mkTrial 20 (3 / 10) \<and>
   calibrateLatencyRobust (\<lambda>i amp. trials6 ! i) 6 (2 / 10) True (6 / 10) = Trial (mkTrial 30 (95 / 100)) \<and>
   mkTrial 30 (95 / 100) \<noteq> mkTrial 20 (3 / 10)"
  unfolding calibrateLatencyRobust_def trials6_loop
  by (simp add: pickMedianByLag_def Let_def trials6_def mkTrial_def)

section \<open>The recording gate (claim C1)\<close>

lemma process_before_start:
  assumes "\<not> recording st" and "startAt st = Some s"
    and "micIn blk = [] \<or> blockEnd ar sampleRate blk \<le> s"
  shows "process ar sampleRate st blk = (st, None)"
  using assms by (auto simp: process_def Let_def)

lemma process_start_block:
  assumes ne: "micIn blk \<noteq> []"
    and st: "\<not> recording st" "startAt st = Some s" "endAt st = None"
    and hi: "s < blockEnd ar sampleRate blk"
    and m: "0 \<le> frameOf ar sampleRate blk s"
           "frameOf ar sampleRate blk s < int (length (hd (micIn blk)))"
  shows "process ar sampleRate st blk =
           (st\<lparr>recording := True\<rparr>,
            Some \<lparr>chunk_mic = copyChannels (nat (frameOf ar sampleRate blk s))
                                (length (hd (micIn blk))) (micIn blk),
                  chunk_ref = copyChannels (nat (frameOf ar sampleRate blk s))
                                (length (hd (micIn blk))) (refIn blk)\<rparr>)"
proof -
  have nt: "\<not> blockEnd ar sampleRate blk \<le> s"
    using hi by simp
  have mx: "nat (max 0 (frameOf ar sampleRate blk s)) = nat (frameOf ar sampleRate blk s)"
    by (simp add: max_def)
  have pos: "0 < max 0 (int (length (hd (micIn blk))) - max 0 (frameOf ar sampleRate blk s))"
    using m by (simp add: max_def)
  show ?thesis
    using ne st nt m by (simp add: process_def Let_def max_def)
qed

lemma process_end_block:
  assumes ne: "micIn blk \<noteq> []"
    and st: "recording st" "endAt st = Some e"
    and lo: "currentTime blk < e"
    and hi: "e < blockEnd ar sampleRate blk"
  shows "process ar sampleRate st blk =
           (idle,
            if 0 < frameOf ar sampleRate blk e
            then Some \<lparr>chunk_mic = copyChannels 0 (nat (frameOf ar sampleRate blk e)) (micIn blk),
                       chunk_ref = copyChannels 0 (nat (frameOf ar sampleRate blk e)) (refIn blk)\<rparr>
            else None)"
proof -
  have nt: "\<not> e \<le> currentTime blk" using lo by simp
  have mx: "nat (max 0 (frameOf ar sampleRate blk e)) = nat (frameOf ar sampleRate blk e)"
    by (simp add: max_def)
  have pos: "(0 < max 0 (max 0 (frameOf ar sampleRate blk e) - 0)) = (0 < frameOf ar sampleRate blk e)"
    by (simp add: max_def)
  show ?thesis
    using ne st nt hi by (simp add: process_def Let_def idle_def mx pos)
qed

lemma process_idle: "process ar sampleRate idle blk = (idle, None)"
  by (simp add: process_def idle_def Let_def)

lemma runBlocks_idle: "runBlocks ar sampleRate idle blks = (idle, [])"
  by (induction blks) (simp_all add: process_idle)

lemma runBlocks_before_start:
  assumes "\<not> recording st" and "startAt st = Some s"
    and "\<forall>b\<in>set pre. micIn b = [] \<or> blockEnd ar sampleRate b \<le> s"
  shows "runBlocks ar sampleRate st (pre @ rest) = runBlocks ar sampleRate st rest"
  using assms(3)
proof (induction pre)
  case Nil
  show ?case by simp
next
  case (Cons b pre)
  have "process ar sampleRate st b = (st, None)"
    using assms(1,2) Cons.prems by (intro process_before_start) auto
  then show ?case using Cons by simp
qed

lemma process_after_end:
  assumes "endAt st = Some e" and "e \<le> currentTime blk"
  shows "snd (process ar sampleRate st blk) = None \<and>
         endAt (fst (process ar sampleRate st blk)) = Some e"
  using assms by (auto simp: process_def Let_def split: option.splits)

lemma runBlocks_after_end:
  assumes "endAt st = Some e" and "\<forall>b\<in>set blks. e \<le> currentTime b"
  shows "snd (runBlocks ar sampleRate st blks) = []"
  using assms
proof (induction blks arbitrary: st)
  case Nil
  show ?case by simp
next
  case (Cons b blks)
  obtain st' out where p: "process ar sampleRate st b = (st', out)"
    by (cases "process ar sampleRate st b")
  have "out = None" and "endAt st' = Some e"
    using process_after_end [of st e b ar sampleRate] Cons.prems p by simp_all
  then show ?case
    using Cons.IH [of st'] Cons.prems(2) p by (simp split: prod.splits)
qed

lemma hd_copyChannels:
  "src \<noteq> [] \<Longrightarrow> copyChannels a b src = Some (map (subarray a b) src)"
  by (simp add: copyChannels_def)

lemma subarray_hd:
  "subarray a (length xs) xs = drop a xs" "subarray 0 b xs = take b xs"
  by (simp_all add: subarray_def)

text \<open>
  C1, as amended, for a block of \<open>B\<close> samples starting at \<open>t0\<close>, with \<open>t1\<close>, \<open>m\<close> and \<open>n\<close> as the
  program computes them (\<open>t1 = t0 + B / sampleRate\<close>, \<open>m = floor((startTime - t0) * sampleRate)\<close>,
  \<open>n = floor((endTime - t0) * sampleRate)\<close>, in double arithmetic). When the gate is armed with
  a start time before \<open>t1\<close> for which \<open>0 \<le> m < B\<close>, and no end time is set, the blocks whose end
  is not after the start time emit nothing and the first emitted chunk holds exactly the
  last \<open>B - m\<close> samples of that block. When the gate is recording and a finite end time lies
  strictly between \<open>t0\<close> and \<open>t1\<close>: for \<open>1 \<le> n \<le> B\<close> the final emitted chunk holds exactly the
  first \<open>n\<close> samples of the block; for \<open>n \<le> 0\<close> nothing is emitted for the block, so the chunk
  emitted before it stays the last one; in both cases the gate is idle afterwards and no
  later block emits a chunk. When the end time is at or before \<open>t0\<close>, this block and all
  later blocks (whose times are not before the end time) emit nothing. This holds for
  every rounding of the operations.
\<close>

theorem gate_truncation_first_and_last_chunk:
  assumes ne: "micIn blk \<noteq> []"
  shows "(\<not> recording st \<and> startAt st = Some s \<and> endAt st = None \<and>
          (\<forall>b\<in>set pre. micIn b = [] \<or> blockEnd ar sampleRate b \<le> s) \<and>
          s < blockEnd ar sampleRate blk \<and>
          0 \<le> frameOf ar sampleRate blk s \<and>
          frameOf ar sampleRate blk s < int (length (hd (micIn blk))) \<longrightarrow>
            runBlocks ar sampleRate st (pre @ [blk]) =
              (st\<lparr>recording := True\<rparr>,
               [\<lparr>chunk_mic = Some (map (subarray (nat (frameOf ar sampleRate blk s))
                                          (length (hd (micIn blk)))) (micIn blk)),
                 chunk_ref = copyChannels (nat (frameOf ar sampleRate blk s))
                               (length (hd (micIn blk))) (refIn blk)\<rparr>]) \<and>
            subarray (nat (frameOf ar sampleRate blk s)) (length (hd (micIn blk))) (hd (micIn blk))
              = drop (nat (frameOf ar sampleRate blk s)) (hd (micIn blk)) \<and>
            int (length (drop (nat (frameOf ar sampleRate blk s)) (hd (micIn blk))))
              = int (length (hd (micIn blk))) - frameOf ar sampleRate blk s) \<and>
         (recording st \<and> endAt st = Some e \<and> currentTime blk < e \<and>
          e < blockEnd ar sampleRate blk \<and>
          0 < frameOf ar sampleRate blk e \<and>
          frameOf ar sampleRate blk e \<le> int (length (hd (micIn blk))) \<longrightarrow>
            runBlocks ar sampleRate st (blk # later) =
              (idle,
               [\<lparr>chunk_mic = Some (map (subarray 0 (nat (frameOf ar sampleRate blk e))) (micIn blk)),
                 chunk_ref = copyChannels 0 (nat (frameOf ar sampleRate blk e)) (refIn blk)\<rparr>]) \<and>
            subarray 0 (nat (frameOf ar sampleRate blk e)) (hd (micIn blk))
              = take (nat (frameOf ar sampleRate blk e)) (hd (micIn blk)) \<and>
            int (length (take (nat (frameOf ar sampleRate blk e)) (hd (micIn blk))))
              = frameOf ar sampleRate blk e) \<and>
         (recording st \<and> endAt st = Some e \<and> currentTime blk < e \<and>
          e < blockEnd ar sampleRate blk \<and>
          frameOf ar sampleRate blk e \<le> 0 \<longrightarrow>
            runBlocks ar sampleRate st (blk # later) = (idle, [])) \<and>
         (endAt st = Some e \<and> e \<le> currentTime blk \<and> (\<forall>b\<in>set later. e \<le> currentTime b) \<longrightarrow>
            snd (runBlocks ar sampleRate st (blk # later)) = [])"
proof -
  let ?B = "length (hd (micIn blk))"
  let ?m = "frameOf ar sampleRate blk s"
  let ?n = "frameOf ar sampleRate blk e"
  have part1: "runBlocks ar sampleRate st (pre @ [blk]) =
              (st\<lparr>recording := True\<rparr>,
               [\<lparr>chunk_mic = Some (map (subarray (nat ?m) ?B) (micIn blk)),
                 chunk_ref = copyChannels (nat ?m) ?B (refIn blk)\<rparr>]) \<and>
            subarray (nat ?m) ?B (hd (micIn blk)) = drop (nat ?m) (hd (micIn blk)) \<and>
            int (length (drop (nat ?m) (hd (micIn blk)))) = int ?B - ?m"
    if a: "\<not> recording st \<and> startAt st = Some s \<and> endAt st = None \<and>
          (\<forall>b\<in>set pre. micIn b = [] \<or> blockEnd ar sampleRate b \<le> s) \<and>
          s < blockEnd ar sampleRate blk \<and> 0 \<le> ?m \<and> ?m < int ?B"
  proof -
    have p: "process ar sampleRate st blk =
        (st\<lparr>recording := True\<rparr>,
         Some \<lparr>chunk_mic = copyChannels (nat ?m) ?B (micIn blk),
               chunk_ref = copyChannels (nat ?m) ?B (refIn blk)\<rparr>)"
      using a process_start_block [OF ne, of st s ar sampleRate] by blast
    have "runBlocks ar sampleRate st (pre @ [blk]) = runBlocks ar sampleRate st [blk]"
      using a runBlocks_before_start [of st s pre ar sampleRate "[blk]"] by blast
    then have r: "runBlocks ar sampleRate st (pre @ [blk]) =
        (st\<lparr>recording := True\<rparr>,
         [\<lparr>chunk_mic = Some (map (subarray (nat ?m) ?B) (micIn blk)),
           chunk_ref = copyChannels (nat ?m) ?B (refIn blk)\<rparr>])"
      using ne by (simp add: p hd_copyChannels)
    have "0 \<le> ?m" and "?m < int ?B"
      using a by blast+
    then have l: "int (length (drop (nat ?m) (hd (micIn blk)))) = int ?B - ?m"
      by simp
    show ?thesis
      by (intro conjI) (rule r, rule subarray_hd, rule l)
  qed
  have part2: "runBlocks ar sampleRate st (blk # later) =
              (idle,
               [\<lparr>chunk_mic = Some (map (subarray 0 (nat ?n)) (micIn blk)),
                 chunk_ref = copyChannels 0 (nat ?n) (refIn blk)\<rparr>]) \<and>
            subarray 0 (nat ?n) (hd (micIn blk)) = take (nat ?n) (hd (micIn blk)) \<and>
            int (length (take (nat ?n) (hd (micIn blk)))) = ?n"
    if a: "recording st \<and> endAt st = Some e \<and> currentTime blk < e \<and>
          e < blockEnd ar sampleRate blk \<and> 0 < ?n \<and> ?n \<le> int ?B"
  proof -
    have p: "process ar sampleRate st blk =
        (idle, Some \<lparr>chunk_mic = copyChannels 0 (nat ?n) (micIn blk),
                     chunk_ref = copyChannels 0 (nat ?n) (refIn blk)\<rparr>)"
      using a process_end_block [OF ne, of st e ar sampleRate] by simp
    have r: "runBlocks ar sampleRate st (blk # later) =
        (idle, [\<lparr>chunk_mic = Some (map (subarray 0 (nat ?n)) (micIn blk)),
                 chunk_ref = copyChannels 0 (nat ?n) (refIn blk)\<rparr>])"
      using ne by (simp add: p runBlocks_idle hd_copyChannels)
    have "0 < ?n" and "?n \<le> int ?B"
      using a by blast+
    then have l: "int (length (take (nat ?n) (hd (micIn blk)))) = ?n"
      by simp
    show ?thesis
      by (intro conjI) (rule r, rule subarray_hd, rule l)
  qed
  have part3: "runBlocks ar sampleRate st (blk # later) = (idle, [])"
    if a: "recording st \<and> endAt st = Some e \<and> currentTime blk < e \<and>
          e < blockEnd ar sampleRate blk \<and> ?n \<le> 0"
  proof -
    have "process ar sampleRate st blk = (idle, None)"
      using a process_end_block [OF ne, of st e ar sampleRate] by simp
    then show ?thesis
      by (simp add: runBlocks_idle)
  qed
  have part4: "snd (runBlocks ar sampleRate st (blk # later)) = []"
    if a: "endAt st = Some e \<and> e \<le> currentTime blk \<and> (\<forall>b\<in>set later. e \<le> currentTime b)"
    using a runBlocks_after_end [of st e "blk # later" ar sampleRate] by simp
  from part1 part2 part3 part4 show ?thesis
    by blast
qed

text \<open>
  C1 on 128-sample blocks at 16384 Hz, where all operations are exact: a start 32 samples
  into the second block gives a first chunk of 96 samples; an end 16 samples into a block
  gives a last chunk of 16 samples; an end half a sample into a block, or exactly at its
  start, gives no chunk.
\<close>

lemmas gate_eval = exactArith_def blockEnd_def frameOf_def blkA_def blkB_def blkC_def

theorem gate_truncation_first_and_last_chunk_witness:
  "runBlocks exactArith 16384 \<lparr>startAt = Some (5 / 512), endAt = None, recording = False\<rparr> [blkA, blkB] =
     (\<lparr>startAt = Some (5 / 512), endAt = None, recording = True\<rparr>,
      [\<lparr>chunk_mic = Some [replicate 96 (1 / 4)], chunk_ref = None\<rparr>]) \<and>
   runBlocks exactArith 16384 \<lparr>startAt = Some 0, endAt = Some (17 / 1024), recording = True\<rparr> [blkC, blkA] =
     (idle, [\<lparr>chunk_mic = Some [replicate 16 (1 / 8)], chunk_ref = Some [replicate 16 1]\<rparr>]) \<and>
   runBlocks exactArith 16384 \<lparr>startAt = Some 0, endAt = Some (513 / 32768), recording = True\<rparr> [blkC, blkA] =
     (idle, []) \<and>
   snd (runBlocks exactArith 16384 \<lparr>startAt = Some 0, endAt = Some (2 / 128), recording = True\<rparr> [blkC]) = []"
proof -
  have neB: "micIn blkB \<noteq> []" and neC: "micIn blkC \<noteq> []"
    by (simp_all add: blkB_def blkC_def)
  have 1: "runBlocks exactArith 16384 \<lparr>startAt = Some (5 / 512), endAt = None, recording = False\<rparr> [blkA, blkB] =
     (\<lparr>startAt = Some (5 / 512), endAt = None, recording = True\<rparr>,
      [\<lparr>chunk_mic = Some [replicate 96 (1 / 4)], chunk_ref = None\<rparr>])"
    using gate_truncation_first_and_last_chunk [OF neB,
        of "\<lparr>startAt = Some (5 / 512), endAt = None, recording = False\<rparr>" "5 / 512" "[blkA]"
           exactArith 16384]
    by (simp add: gate_eval subarray_def copyChannels_def)
  have 2: "runBlocks exactArith 16384 \<lparr>startAt = Some 0, endAt = Some (17 / 1024), recording = True\<rparr> [blkC, blkA] =
     (idle, [\<lparr>chunk_mic = Some [replicate 16 (1 / 8)], chunk_ref = Some [replicate 16 1]\<rparr>])"
    using gate_truncation_first_and_last_chunk [OF neC,
        of "\<lparr>startAt = Some 0, endAt = Some (17 / 1024), recording = True\<rparr>" _ _
           exactArith 16384 "17 / 1024" "[blkA]"]
    by (simp add: gate_eval subarray_def copyChannels_def)
  have 3: "runBlocks exactArith 16384 \<lparr>startAt = Some 0, endAt = Some (513 / 32768), recording = True\<rparr> [blkC, blkA] =
     (idle, [])"
    using gate_truncation_first_and_last_chunk [OF neC,
        of "\<lparr>startAt = Some 0, endAt = Some (513 / 32768), recording = True\<rparr>" _ _
           exactArith 16384 "513 / 32768" "[blkA]"]
    by (simp add: gate_eval)
  have 4: "snd (runBlocks exactArith 16384 \<lparr>startAt = Some 0, endAt = Some (2 / 128), recording = True\<rparr> [blkC]) = []"
    using gate_truncation_first_and_last_chunk [OF neC,
        of "\<lparr>startAt = Some 0, endAt = Some (2 / 128), recording = True\<rparr>" _ _
           exactArith 16384 "2 / 128" "[]"]
    by (simp add: gate_eval)
  from 1 2 3 4 show ?thesis by blast
qed

text \<open>
  C1 as stated fails for \<open>n = 0\<close>: with a window from 0 to half a sample after the start of
  the second block, the end time lands 0 samples into that block, nothing is emitted for it,
  and the final emitted chunk is the whole first block, 128 samples and not 0.
\<close>

theorem gate_end_in_first_sample_counterexample:
  "currentTime blkB < 257 / 32768 \<and>
   257 / 32768 < blockEnd exactArith 16384 blkB \<and>
   frameOf exactArith 16384 blkB (257 / 32768) = 0 \<and>
   runBlocks exactArith 16384 (onmessage idle (SetWindowMsg (Some 0) (Some (257 / 32768)))) [blkA, blkB, blkC] =
     (idle, [\<lparr>chunk_mic = Some [replicate 128 (1 / 2)], chunk_ref = None\<rparr>]) \<and>
   length (hd (the (chunk_mic (last (snd (runBlocks exactArith 16384
     (onmessage idle (SetWindowMsg (Some 0) (Some (257 / 32768)))) [blkA, blkB, blkC])))))) = 128"
  by (simp add: gate_eval idle_def process_def Let_def copyChannels_def subarray_def)

end
